theory Spec2Isabelle
  imports Complex_Main
begin

section \<open>Data model of the sketch\<close>

text \<open>
  The sketches keep their state in global variables. The model collects the globals the
  aggregation and the placement search read or write in one record and passes it
  explicitly. JavaScript numbers are modelled by exact rationals (the rounding of
  doubles is left out); the value \<open>NaN\<close>, which arises only from reading a typed array
  out of range, is \<open>None\<close>.

  A \<open>p5.Image\<close> is its dimensions and its flat RGBA array \<open>pixels\<close>
  (a \<open>Uint8ClampedArray\<close>, four entries per pixel, row-major).
\<close>

record image =
  iwidth :: nat
  iheight :: nat
  pixels :: "int list"

text \<open>
  A rectangle object \<open>{x, y, w, h, score, searching}\<close>. The field names carry the
  prefix \<open>r\<close>, since \<open>x\<close>, \<open>y\<close>, \<open>w\<close>, \<open>h\<close> are wanted as variable names.
\<close>

record garden =
  rx :: rat
  ry :: rat
  rw :: rat
  rh :: rat
  rscore :: "int option"
  searching :: bool

record sketch =
  images :: "image list"
  heatMap :: "image option"
  threshold :: rat
  width :: nat
  height :: nat
  rectWidth :: rat
  rectHeight :: rat
  isLoading :: bool
  movingRectangle :: "garden option"
  permanentRectangles :: "garden list"

datatype js_error = TypeError

definition totalImages :: nat where
  "totalImages = 90"

section \<open>Primitives of the host\<close>

text \<open>Reading a typed array: \<open>undefined\<close> (here \<open>None\<close>) out of range.\<close>

definition pixelAt :: "int list \<Rightarrow> nat \<Rightarrow> int option" where
  "pixelAt ps k = (if k < length ps then Some (ps ! k) else None)"

text \<open>
  Storing a number into a \<open>Uint8ClampedArray\<close>: clamp to \<open>[0, 255]\<close> and round to the
  nearest integer, a tie going to the even neighbour.
\<close>

definition roundTiesEven :: "rat \<Rightarrow> int" where
  "roundTiesEven v =
     (let f = \<lfloor>v\<rfloor>
      in if of_int f + 1 / 2 < v then f + 1
         else if v < of_int f + 1 / 2 then f
         else if even f then f else f + 1)"

definition toUint8Clamp :: "rat \<Rightarrow> int" where
  "toUint8Clamp v = (if v \<le> 0 then 0 else if 255 \<le> v then 255 else roundTiesEven v)"

text \<open>The function \<open>map\<close> of p5.js (without its optional clamping argument).\<close>

definition p5_map :: "rat \<Rightarrow> rat \<Rightarrow> rat \<Rightarrow> rat \<Rightarrow> rat \<Rightarrow> rat" where
  "p5_map n start1 stop1 start2 stop2 =
     (n - start1) / (stop1 - start1) * (stop2 - start2) + start2"

section \<open>The exposure aggregator: generateHeatMap\<close>

text \<open>
  \<open>brightness = 0.299 * r + 0.587 * g + 0.114 * b\<close> of the pixel of one image that
  starts at \<open>imgIndex\<close>; \<open>NaN\<close> when a channel is read out of range.
\<close>

definition brightnessAt :: "image \<Rightarrow> nat \<Rightarrow> rat option" where
  "brightnessAt img imgIndex =
     (case pixelAt (pixels img) imgIndex of
        None \<Rightarrow> None
      | Some r \<Rightarrow>
          (case pixelAt (pixels img) (imgIndex + 1) of
             None \<Rightarrow> None
           | Some g \<Rightarrow>
               (case pixelAt (pixels img) (imgIndex + 2) of
                  None \<Rightarrow> None
                | Some b \<Rightarrow>
                    Some (299 / 1000 * of_int r + 587 / 1000 * of_int g
                          + 114 / 1000 * of_int b))))"

text \<open>The test \<open>brightness > threshold\<close>; a comparison with \<open>NaN\<close> is false.\<close>

definition isSunny :: "rat option \<Rightarrow> rat \<Rightarrow> bool" where
  "isSunny brightness t = (case brightness of None \<Rightarrow> False | Some v \<Rightarrow> t < v)"

text \<open>
  The innermost loop, over the images: each image is read with its own row stride
  \<open>images[i].width\<close>.
\<close>

fun countSunny :: "image list \<Rightarrow> rat \<Rightarrow> nat \<Rightarrow> nat \<Rightarrow> nat \<Rightarrow> nat" where
  "countSunny [] t x y sunnyCount = sunnyCount"
| "countSunny (img # imgs) t x y sunnyCount =
     (let imgIndex = (x + y * iwidth img) * 4
      in countSunny imgs t x y
           (if isSunny (brightnessAt img imgIndex) t then sunnyCount + 1 else sunnyCount))"

definition sunValueAt :: "sketch \<Rightarrow> nat \<Rightarrow> nat \<Rightarrow> rat" where
  "sunValueAt st x y =
     p5_map (of_nat (countSunny (images st) (threshold st) x y 0)) 0 (of_nat totalImages) 0 255"

text \<open>The four stores of one heat-map pixel; a store out of range is dropped.\<close>

definition setPixel :: "int list \<Rightarrow> nat \<Rightarrow> rat \<Rightarrow> int list" where
  "setPixel hp index sunValue =
     hp[index := toUint8Clamp sunValue,
        index + 1 := toUint8Clamp sunValue,
        index + 2 := toUint8Clamp sunValue,
        index + 3 := 255]"

text \<open>The loop over \<open>y\<close> for one column \<open>x\<close>.\<close>

function heatRows :: "sketch \<Rightarrow> nat \<Rightarrow> nat \<Rightarrow> int list \<Rightarrow> int list" where
  "heatRows st x y hp =
     (if y < height st
      then (let index = (x + y * width st) * 4
            in heatRows st x (y + 1) (setPixel hp index (sunValueAt st x y)))
      else hp)"
  by pat_completeness auto
termination
  by (relation "measure (\<lambda>(st, x, y, hp). height st - y)") auto

declare heatRows.simps [simp del]

text \<open>The loop over \<open>x\<close> of the synchronous variants.\<close>

function heatColumns :: "sketch \<Rightarrow> nat \<Rightarrow> int list \<Rightarrow> int list" where
  "heatColumns st x hp =
     (if x < width st then heatColumns st (x + 1) (heatRows st x 0 hp) else hp)"
  by pat_completeness auto
termination
  by (relation "measure (\<lambda>(st, x, hp). width st - x)") auto

declare heatColumns.simps [simp del]

text \<open>
  \<open>generateHeatMap\<close> of the synchronous variants. \<open>heatMap.loadPixels()\<close> on an undefined
  \<open>heatMap\<close> throws; nothing else in the function can.
\<close>

definition generateHeatMap :: "sketch \<Rightarrow> js_error + sketch" where
  "generateHeatMap st =
     (case heatMap st of
        None \<Rightarrow> Inl TypeError
      | Some hm \<Rightarrow> Inr (st\<lparr>heatMap := Some (hm\<lparr>pixels := heatColumns st 0 (pixels hm)\<rparr>)\<rparr>))"

text \<open>
  The asynchronous variant runs the same loops and suspends after every column whose
  index is a multiple of 20. A suspended run is the column to go on with and the pixel
  array as written so far.
\<close>

datatype task = Yielded nat "int list" | Finished "int list"

function heatColumnsAsync :: "sketch \<Rightarrow> nat \<Rightarrow> int list \<Rightarrow> task" where
  "heatColumnsAsync st x hp =
     (if x < width st
      then (let hp' = heatRows st x 0 hp
            in if x mod 20 = 0 then Yielded (x + 1) hp'
               else heatColumnsAsync st (x + 1) hp')
      else Finished hp)"
  by pat_completeness auto
termination
  by (relation "measure (\<lambda>(st, x, hp). width st - x)") auto

declare heatColumnsAsync.simps [simp del]

lemma heatColumnsAsync_Yielded:
  "heatColumnsAsync st x hp = Yielded x' hp' \<Longrightarrow> x < x' \<and> x' \<le> width st"
proof (induction st x hp rule: heatColumnsAsync.induct)
  case (1 st x hp)
  show ?case
  proof (cases "x < width st")
    case True
    note lt = this
    show ?thesis
    proof (cases "x mod 20 = 0")
      case True
      with lt "1.prems" show ?thesis
        by (simp add: heatColumnsAsync.simps [of st x hp] Let_def)
    next
      case False
      with lt "1.prems" have "heatColumnsAsync st (x + 1) (heatRows st x 0 hp) = Yielded x' hp'"
        by (simp add: heatColumnsAsync.simps [of st x hp] Let_def)
      with "1.IH" [OF lt refl False] have "x + 1 < x' \<and> x' \<le> width st" by simp
      then show ?thesis by simp
    qed
  next
    case False
    with "1.prems" show ?thesis by (simp add: heatColumnsAsync.simps [of st x hp])
  qed
qed

text \<open>The host resumes the suspended run until it finishes.\<close>

function resumeAll :: "sketch \<Rightarrow> task \<Rightarrow> int list" where
  "resumeAll st (Finished hp) = hp"
| "resumeAll st (Yielded x hp) = resumeAll st (heatColumnsAsync st x hp)"
  by pat_completeness auto
termination
proof (relation "measure (\<lambda>(st, t). case t of Finished _ \<Rightarrow> 0 | Yielded x _ \<Rightarrow> Suc (width st - x))")
  show "wf (measure (\<lambda>(st, t). case t of Finished _ \<Rightarrow> 0 | Yielded x _ \<Rightarrow> Suc (width st - x)))"
    by simp
next
  fix st x hp
  show "((st, heatColumnsAsync st x hp), (st, Yielded x hp))
        \<in> measure (\<lambda>(st, t). case t of Finished _ \<Rightarrow> 0 | Yielded x _ \<Rightarrow> Suc (width st - x))"
  proof (cases "heatColumnsAsync st x hp")
    case (Yielded x' hp')
    from heatColumnsAsync_Yielded [OF this] have "x < x' \<and> x' \<le> width st" .
    then have "Suc (width st - x') < Suc (width st - x)" by arith
    with Yielded show ?thesis by simp
  next
    case (Finished hp')
    then show ?thesis by simp
  qed
qed

definition generateHeatMapAsync :: "sketch \<Rightarrow> js_error + sketch" where
  "generateHeatMapAsync st =
     (case heatMap st of
        None \<Rightarrow> Inl TypeError
      | Some hm \<Rightarrow>
          Inr (st\<lparr>heatMap :=
                 Some (hm\<lparr>pixels := resumeAll st (heatColumnsAsync st 0 (pixels hm))\<rparr>)\<rparr>))"

section \<open>The placement search\<close>

text \<open>\<open>score += brightness\<close> and \<open>a > b\<close> on numbers that may be \<open>NaN\<close>.\<close>

definition js_add :: "int option \<Rightarrow> int option \<Rightarrow> int option" where
  "js_add a b =
     (case a of None \<Rightarrow> None
      | Some u \<Rightarrow> (case b of None \<Rightarrow> None | Some v \<Rightarrow> Some (u + v)))"

definition js_gt :: "int option \<Rightarrow> int option \<Rightarrow> bool" where
  "js_gt a b =
     (case a of None \<Rightarrow> False
      | Some u \<Rightarrow> (case b of None \<Rightarrow> False | Some v \<Rightarrow> v < u))"

text \<open>
  The inner loop of \<open>calculateRectangleScore\<close>, over the rows \<open>j\<close> of column \<open>i\<close>. The
  globals \<open>width\<close> and \<open>height\<close> are passed as \<open>W\<close> and \<open>H\<close>, the array
  \<open>heatMap.pixels\<close> as \<open>hp\<close>.
\<close>

function scoreRows :: "nat \<Rightarrow> nat \<Rightarrow> int list \<Rightarrow> int \<Rightarrow> int \<Rightarrow> int \<Rightarrow> int option \<Rightarrow> int option" where
  "scoreRows W H hp i j jend score =
     (if j < jend
      then scoreRows W H hp i (j + 1) jend
             (if 0 \<le> i \<and> i < int W \<and> 0 \<le> j \<and> j < int H
              then (let index = nat ((i + j * int W) * 4);
                        brightness = pixelAt hp index
                    in js_add score brightness)
              else score)
      else score)"
  by pat_completeness auto
termination
  by (relation "measure (\<lambda>(W, H, hp, i, j, jend, score). nat (jend - j))") auto

declare scoreRows.simps [simp del]

text \<open>The outer loop, over the columns \<open>i\<close>.\<close>

function scoreColumns ::
  "nat \<Rightarrow> nat \<Rightarrow> int list \<Rightarrow> int \<Rightarrow> int \<Rightarrow> int \<Rightarrow> int \<Rightarrow> int option \<Rightarrow> int option" where
  "scoreColumns W H hp i iend j0 jend score =
     (if i < iend
      then scoreColumns W H hp (i + 1) iend j0 jend (scoreRows W H hp i j0 jend score)
      else score)"
  by pat_completeness auto
termination
  by (relation "measure (\<lambda>(W, H, hp, i, iend, j0, jend, score). nat (iend - i))") auto

declare scoreColumns.simps [simp del]

text \<open>
  \<open>calculateRectangleScore\<close> of the variant with the hill climbing: it returns 0 when
  \<open>heatMap\<close> is undefined. (The other variants have no such test and throw there.)
\<close>

definition calculateRectangleScore :: "sketch \<Rightarrow> rat \<Rightarrow> rat \<Rightarrow> rat \<Rightarrow> rat \<Rightarrow> int option" where
  "calculateRectangleScore st x y w h =
     (case heatMap st of
        None \<Rightarrow> Some 0
      | Some hm \<Rightarrow>
          scoreColumns (width st) (height st) (pixels hm)
            \<lfloor>x - w / 2\<rfloor> \<lfloor>x + w / 2\<rfloor> \<lfloor>y - h / 2\<rfloor> \<lfloor>y + h / 2\<rfloor> (Some 0))"

text \<open>\<open>mousePressed\<close>: a click inside the canvas starts a search above the cursor.\<close>

definition mousePressed :: "sketch \<Rightarrow> rat \<Rightarrow> rat \<Rightarrow> sketch" where
  "mousePressed st mouseX mouseY =
     (if 0 \<le> mouseX \<and> mouseX < of_nat (width st) \<and> 0 \<le> mouseY \<and> mouseY < of_nat (height st)
      then (let rectYOffset = - rectHeight st / 2 - 8;
                score = calculateRectangleScore st mouseX (mouseY + rectYOffset)
                          (rectWidth st) (rectHeight st)
            in st\<lparr>movingRectangle :=
                    Some \<lparr>rx = mouseX, ry = mouseY + rectYOffset, rw = rectWidth st,
                          rh = rectHeight st, rscore = score, searching = True\<rparr>\<rparr>)
      else st)"

text \<open>The eight offsets, in the order of the array \<open>directions\<close>: N, NE, E, SE, S, SW, W, NW.\<close>

definition directions :: "(rat \<times> rat) list" where
  "directions = [(0, -1), (1, -1), (1, 0), (1, 1), (0, 1), (-1, 1), (-1, 0), (-1, -1)]"

text \<open>The test a shifted position has to pass before it is scored.\<close>

definition inBounds :: "sketch \<Rightarrow> rat \<Rightarrow> rat \<Rightarrow> rat \<Rightarrow> rat \<Rightarrow> bool" where
  "inBounds st nx ny w h \<longleftrightarrow>
     nx - w / 2 \<ge> 0 \<and> nx + w / 2 < of_nat (width st) \<and>
     ny - h / 2 \<ge> 0 \<and> ny + h / 2 < of_nat (height st)"

text \<open>The loop over the directions; it carries \<open>bestScore\<close> and \<open>bestPos\<close>.\<close>

fun scanDirections ::
  "sketch \<Rightarrow> garden \<Rightarrow> (rat \<times> rat) list \<Rightarrow> int option \<times> rat \<times> rat \<Rightarrow> int option \<times> rat \<times> rat" where
  "scanDirections st m [] best = best"
| "scanDirections st m ((dx, dy) # dirs) (bestScore, bestPos) =
     (let nx = rx m + dx; ny = ry m + dy
      in if inBounds st nx ny (rw m) (rh m)
         then (let score = calculateRectangleScore st nx ny (rw m) (rh m)
               in if js_gt score bestScore
                  then scanDirections st m dirs (score, (nx, ny))
                  else scanDirections st m dirs (bestScore, bestPos))
         else scanDirections st m dirs (bestScore, bestPos))"

text \<open>The hill-climbing block of \<open>draw\<close>.\<close>

definition hillClimbStep :: "sketch \<Rightarrow> sketch" where
  "hillClimbStep st =
     (case movingRectangle st of
        None \<Rightarrow> st
      | Some m \<Rightarrow>
          if searching m
          then (case scanDirections st m directions (rscore m, (rx m, ry m)) of
                  (bestScore, bestPos) \<Rightarrow>
                    if js_gt bestScore (rscore m)
                    then st\<lparr>movingRectangle :=
                              Some (m\<lparr>rx := fst bestPos, ry := snd bestPos, rscore := bestScore\<rparr>)\<rparr>
                    else st\<lparr>permanentRectangles :=
                              permanentRectangles st @ [m\<lparr>searching := False\<rparr>],
                            movingRectangle := None\<rparr>)
          else st)"

text \<open>
  One frame: \<open>draw\<close> reaches the hill-climbing block only when the loading has ended and
  \<open>heatMap\<close> is defined. What else it does is drawing, and the tracking of
  \<open>bestRectangle\<close>, which nothing reads.
\<close>

definition draw :: "sketch \<Rightarrow> sketch" where
  "draw st =
     (if isLoading st then st
      else if heatMap st \<noteq> None then hillClimbStep st
      else st)"

text \<open>The host calls \<open>draw\<close> once per frame.\<close>

fun frames :: "nat \<Rightarrow> sketch \<Rightarrow> sketch" where
  "frames 0 st = st"
| "frames (Suc n) st = frames n (draw st)"

section \<open>Notions used in the statements\<close>

text \<open>The value \<open>generateHeatMap\<close> leaves at entry \<open>k\<close> of the pixel array of the heat map.\<close>

definition cellValue :: "sketch \<Rightarrow> nat \<Rightarrow> int" where
  "cellValue st k =
     (if k mod 4 = 3 then 255
      else toUint8Clamp (sunValueAt st ((k div 4) mod width st) ((k div 4) div width st)))"

text \<open>The value of the grid cell in column \<open>i\<close> and row \<open>j\<close>; 0 outside the grid.\<close>

definition gridCell :: "nat \<Rightarrow> nat \<Rightarrow> int list \<Rightarrow> int \<Rightarrow> int \<Rightarrow> int" where
  "gridCell W H hp i j =
     (if 0 \<le> i \<and> i < int W \<and> 0 \<le> j \<and> j < int H
      then hp ! nat ((i + j * int W) * 4) else 0)"

text \<open>
  A rectangle lies fully inside the grid when none of its four edges is beyond the
  edges of the grid. \<open>inBounds\<close> asks more: the right and the bottom edge have to stay
  strictly below \<open>width\<close> and \<open>height\<close>.
\<close>

definition fullyInside :: "sketch \<Rightarrow> rat \<Rightarrow> rat \<Rightarrow> rat \<Rightarrow> rat \<Rightarrow> bool" where
  "fullyInside st x y w h \<longleftrightarrow>
     0 \<le> x - w / 2 \<and> x + w / 2 \<le> of_nat (width st) \<and>
     0 \<le> y - h / 2 \<and> y + h / 2 \<le> of_nat (height st)"

text \<open>
  The state in which a search starts: the rectangle object \<open>mousePressed\<close> builds, for
  a centre \<open>(x, y)\<close> and a footprint \<open>w\<close> by \<open>h\<close>.
\<close>

definition startSearch :: "sketch \<Rightarrow> rat \<Rightarrow> rat \<Rightarrow> rat \<Rightarrow> rat \<Rightarrow> sketch" where
  "startSearch st x y w h =
     st\<lparr>movingRectangle :=
          Some \<lparr>rx = x, ry = y, rw = w, rh = h,
                rscore = calculateRectangleScore st x y w h, searching = True\<rparr>\<rparr>"


text \<open>No admitted neighbour of \<open>p\<close> has a greater score than the one \<open>p\<close> stores.\<close>

definition localMax :: "sketch \<Rightarrow> garden \<Rightarrow> bool" where
  "localMax st p \<longleftrightarrow>
     (\<forall>d \<in> set directions.
        inBounds st (rx p + fst d) (ry p + snd d) (rw p) (rh p) \<longrightarrow>
        \<not> js_gt (calculateRectangleScore st (rx p + fst d) (ry p + snd d) (rw p) (rh p))
             (rscore p))"

text \<open>
  For the bound on the number of steps: the first grid cell under a rectangle, the cells
  of the grid, the score of the rectangle moved by whole pixels so that its first cell is
  \<open>c\<close>, and the cells from which it would score more than it does now.
\<close>

definition cornerCell :: "garden \<Rightarrow> int \<times> int" where
  "cornerCell m = (\<lfloor>rx m - rw m / 2\<rfloor>, \<lfloor>ry m - rh m / 2\<rfloor>)"

definition gridCells :: "sketch \<Rightarrow> (int \<times> int) set" where
  "gridCells st = {0..<int (width st)} \<times> {0..<int (height st)}"

definition scoreFrom :: "sketch \<Rightarrow> garden \<Rightarrow> int \<times> int \<Rightarrow> int option" where
  "scoreFrom st m c =
     calculateRectangleScore st
       (rx m + of_int (fst c - fst (cornerCell m)))
       (ry m + of_int (snd c - snd (cornerCell m))) (rw m) (rh m)"

definition better :: "sketch \<Rightarrow> garden \<Rightarrow> (int \<times> int) set" where
  "better st m = {c \<in> gridCells st. js_gt (scoreFrom st m c) (rscore m)}"



text \<open>
  The pixel array of a heat map of \<open>n\<close> pixels on which no image is ever sunny: black
  and opaque.
\<close>

definition shadedPixels :: "nat \<Rightarrow> int list" where
  "shadedPixels n = concat (replicate n [0, 0, 0, 255])"

section \<open>Scenes used in the examples\<close>

text \<open>
  Only one of the 90 images has loaded: a single white pixel. The asynchronous variant
  reaches \<open>generateHeatMap\<close> in this state, since it pushes an image only when its load
  succeeded and starts the aggregation once all 90 loads have been attempted.
\<close>

definition partialLoad :: sketch where
  "partialLoad =
     \<lparr>images = [\<lparr>iwidth = 1, iheight = 1, pixels = [255, 255, 255, 255]\<rparr>],
      heatMap = Some \<lparr>iwidth = 1, iheight = 1, pixels = [0, 0, 0, 0]\<rparr>,
      threshold = 200, width = 1, height = 1,
      rectWidth = 8 * (192 / 19), rectHeight = 4 * (192 / 19), isLoading = True,
      movingRectangle = None, permanentRectangles = []\<rparr>"

text \<open>The same before \<open>createImage\<close> has run: no heat map yet.\<close>

definition noHeatMap :: sketch where
  "noHeatMap = partialLoad\<lparr>heatMap := None\<rparr>"

text \<open>
  Two images of different sizes: the first 2 by 2 and white, the second 1 by 2 with a
  white pixel above a black one. The canvas and the heat map take the size of the first.
\<close>

definition mismatched :: sketch where
  "mismatched =
     \<lparr>images =
        [\<lparr>iwidth = 2, iheight = 2,
          pixels = [255, 255, 255, 255, 255, 255, 255, 255,
                    255, 255, 255, 255, 255, 255, 255, 255]\<rparr>,
         \<lparr>iwidth = 1, iheight = 2, pixels = [255, 255, 255, 255, 0, 0, 0, 255]\<rparr>],
      heatMap = Some \<lparr>iwidth = 2, iheight = 2, pixels = replicate 16 0\<rparr>,
      threshold = 200, width = 2, height = 2,
      rectWidth = 8 * (192 / 19), rectHeight = 4 * (192 / 19), isLoading = True,
      movingRectangle = None, permanentRectangles = []\<rparr>"

text \<open>A 5 by 5 heat map that is black but for the cell in column 2 and row 2.\<close>

definition spotPixels :: "int list" where
  "spotPixels =
     concat (map (\<lambda>p. if p = 12 then [255, 255, 255, 255] else [0, 0, 0, 255]) [0..<25])"

definition spotGrid :: sketch where
  "spotGrid =
     \<lparr>images = [], heatMap = Some \<lparr>iwidth = 5, iheight = 5, pixels = spotPixels\<rparr>,
      threshold = 200, width = 5, height = 5, rectWidth = 1, rectHeight = 1,
      isLoading = False, movingRectangle = None, permanentRectangles = []\<rparr>"



section \<open>The heat map, cell by cell\<close>

lemma length_setPixel [simp]: "length (setPixel hp index v) = length hp"
  by (simp add: setPixel_def)

lemma length_heatRows [simp]: "length (heatRows st x y hp) = length hp"
  by (induction st x y hp rule: heatRows.induct) (simp add: heatRows.simps Let_def)

lemma length_heatColumns [simp]: "length (heatColumns st x hp) = length hp"
  by (induction st x hp rule: heatColumns.induct) (simp add: heatColumns.simps)

lemma nth_setPixel:
  "k < length hp \<Longrightarrow>
   setPixel hp (p * 4) v ! k =
     (if k div 4 = p then (if k mod 4 = 3 then 255 else toUint8Clamp v) else hp ! k)"
proof -
  assume k: "k < length hp"
  have a: "k div 4 = p \<longleftrightarrow> (k = p * 4 \<or> k = p * 4 + 1 \<or> k = p * 4 + 2 \<or> k = p * 4 + 3)"
    by arith
  have b: "k = p * 4 + 3 \<Longrightarrow> k mod 4 = 3" "k = p * 4 \<Longrightarrow> k mod 4 \<noteq> 3"
     "k = p * 4 + 1 \<Longrightarrow> k mod 4 \<noteq> 3" "k = p * 4 + 2 \<Longrightarrow> k mod 4 \<noteq> 3"
    by arith+
  show ?thesis
    unfolding setPixel_def a using k b
    by (auto simp: nth_list_update)
qed

lemma pixel_index_iff:
  "x < W \<Longrightarrow> p = x + y * W \<longleftrightarrow> p mod W = x \<and> p div W = (y::nat)"
  by (auto simp: div_mult_self_is_m)

text \<open>Column \<open>x\<close>, from row \<open>y0\<close> on, rewrites exactly the pixels \<open>(x, y)\<close> with \<open>y0 \<le> y\<close>.\<close>

lemma nth_heatRows:
  "x < width st \<Longrightarrow> k < length hp \<Longrightarrow>
   heatRows st x y0 hp ! k =
     (if (k div 4) mod width st = x \<and> y0 \<le> (k div 4) div width st \<and>
         (k div 4) div width st < height st
      then cellValue st k else hp ! k)"
proof (induction st x y0 hp rule: heatRows.induct)
  case (1 st x y hp)
  show ?case
  proof (cases "y < height st")
    case True
    have eq: "heatRows st x y hp =
        heatRows st x (y + 1) (setPixel hp ((x + y * width st) * 4) (sunValueAt st x y))"
      using True by (simp add: heatRows.simps [of st x y hp] Let_def)
    have ih: "heatRows st x (y + 1) (setPixel hp ((x + y * width st) * 4) (sunValueAt st x y)) ! k =
      (if (k div 4) mod width st = x \<and> y + 1 \<le> (k div 4) div width st \<and>
          (k div 4) div width st < height st
       then cellValue st k else setPixel hp ((x + y * width st) * 4) (sunValueAt st x y) ! k)"
      using "1.IH" [OF True refl] "1.prems" by simp
    have sp: "setPixel hp ((x + y * width st) * 4) (sunValueAt st x y) ! k =
       (if (k div 4) mod width st = x \<and> (k div 4) div width st = y
        then cellValue st k else hp ! k)"
      using nth_setPixel [OF "1.prems"(2), of "x + y * width st" "sunValueAt st x y"]
        pixel_index_iff [OF "1.prems"(1), of "k div 4" y]
      by (auto simp: cellValue_def)
    show ?thesis unfolding eq ih sp using True by auto
  next
    case False
    then show ?thesis by (simp add: heatRows.simps [of st x y hp])
  qed
qed

lemma nth_heatColumns:
  "k < length hp \<Longrightarrow>
   heatColumns st x0 hp ! k =
     (if x0 \<le> (k div 4) mod width st \<and> (k div 4) mod width st < width st \<and>
         (k div 4) div width st < height st
      then cellValue st k else hp ! k)"
proof (induction st x0 hp rule: heatColumns.induct)
  case (1 st x hp)
  show ?case
  proof (cases "x < width st")
    case True
    have eq: "heatColumns st x hp = heatColumns st (x + 1) (heatRows st x 0 hp)"
      using True by (simp add: heatColumns.simps [of st x hp])
    have ih: "heatColumns st (x + 1) (heatRows st x 0 hp) ! k =
       (if x + 1 \<le> (k div 4) mod width st \<and> (k div 4) mod width st < width st \<and>
           (k div 4) div width st < height st
        then cellValue st k else heatRows st x 0 hp ! k)"
      using "1.IH" [OF True] "1.prems" by simp
    show ?thesis unfolding eq ih nth_heatRows [OF True "1.prems"] using True by auto
  next
    case False
    then show ?thesis by (simp add: heatColumns.simps [of st x hp])
  qed
qed

text \<open>
  The two loops together rewrite the first \<open>width * height\<close> pixels and nothing else.
\<close>

lemma heatColumns_cells:
  assumes "k < length hp"
  shows "heatColumns st 0 hp ! k =
     (if k div 4 < width st * height st then cellValue st k else hp ! k)"
proof (cases "width st = 0")
  case True
  then show ?thesis using nth_heatColumns [OF assms, of st 0] by simp
next
  case False
  then have "(k div 4) div width st < height st \<longleftrightarrow> k div 4 < width st * height st"
    by (simp add: less_mult_imp_div_less div_less_iff_less_mult mult.commute)
  then show ?thesis using nth_heatColumns [OF assms, of st 0] False by simp
qed

section \<open>Raising the threshold\<close>

lemma roundTiesEven_bounds: "\<lfloor>v\<rfloor> \<le> roundTiesEven v \<and> roundTiesEven v \<le> \<lfloor>v\<rfloor> + 1"
  by (simp add: roundTiesEven_def Let_def)

lemma roundTiesEven_mono:
  assumes "v \<le> v'"
  shows "roundTiesEven v \<le> roundTiesEven v'"
proof (cases "\<lfloor>v\<rfloor> = \<lfloor>v'\<rfloor>")
  case True
  then show ?thesis using assms by (auto simp add: roundTiesEven_def Let_def)
next
  case False
  with assms have "\<lfloor>v\<rfloor> < \<lfloor>v'\<rfloor>" using floor_mono [OF assms] by simp
  then show ?thesis using roundTiesEven_bounds [of v] roundTiesEven_bounds [of v'] by linarith
qed

lemma toUint8Clamp_range: "0 \<le> toUint8Clamp v \<and> toUint8Clamp v \<le> 255"
proof (cases "0 < v \<and> v < 255")
  case True
  then have "0 \<le> \<lfloor>v\<rfloor>" and "\<lfloor>v\<rfloor> < 255"
    by (simp_all add: floor_less_iff)
  moreover have "toUint8Clamp v = roundTiesEven v"
    using True by (simp add: toUint8Clamp_def)
  ultimately show ?thesis using roundTiesEven_bounds [of v] by linarith
next
  case False
  then show ?thesis by (auto simp: toUint8Clamp_def)
qed

lemma toUint8Clamp_mono:
  assumes "v \<le> v'"
  shows "toUint8Clamp v \<le> toUint8Clamp v'"
proof -
  consider "v \<le> 0" | "255 \<le> v'" | "0 < v" "v' < 255" by linarith
  then show ?thesis
  proof cases
    case 1
    then show ?thesis using toUint8Clamp_range [of v'] by (simp add: toUint8Clamp_def)
  next
    case 2
    then show ?thesis using toUint8Clamp_range [of v] by (simp add: toUint8Clamp_def)
  next
    case 3
    then show ?thesis using assms roundTiesEven_mono [OF assms] by (simp add: toUint8Clamp_def)
  qed
qed

lemma isSunny_mono: "t1 \<le> t2 \<Longrightarrow> isSunny b t2 \<Longrightarrow> isSunny b t1"
  by (auto simp: isSunny_def split: option.splits)

lemma countSunny_mono:
  "t1 \<le> t2 \<Longrightarrow> c2 \<le> c1 \<Longrightarrow> countSunny imgs t2 x y c2 \<le> countSunny imgs t1 x y c1"
proof (induction imgs arbitrary: c1 c2)
  case Nil
  then show ?case by simp
next
  case (Cons img imgs)
  show ?case
    using Cons.prems isSunny_mono [OF Cons.prems(1)]
    by (auto simp: Let_def intro!: Cons.IH)
qed

lemma p5_map_mono:
  "a \<le> b \<Longrightarrow>
   p5_map (of_nat a) 0 (of_nat totalImages) 0 255 \<le> p5_map (of_nat b) 0 (of_nat totalImages) 0 255"
  by (simp add: p5_map_def totalImages_def divide_right_mono)

lemma cellValue_mono:
  assumes "t1 \<le> t2"
  shows "cellValue (st\<lparr>threshold := t2\<rparr>) k \<le> cellValue (st\<lparr>threshold := t1\<rparr>) k"
  unfolding cellValue_def sunValueAt_def
  using countSunny_mono [OF assms le_refl]
  by (auto intro!: toUint8Clamp_mono p5_map_mono)

text \<open>
  Claim C7. With the images fixed and \<open>t1 \<le> t2\<close>, both aggregations succeed, and the one
  with threshold \<open>t2\<close> has, at every coordinate, a sunny count no greater than the one
  with \<open>t1\<close>, and at every entry of the heat map a value no greater.
\<close>

theorem threshold_monotone:
  assumes "t1 \<le> t2" and "heatMap st = Some hm"
  shows "\<exists>s1 s2 h1 h2.
           generateHeatMap (st\<lparr>threshold := t1\<rparr>) = Inr s1 \<and> heatMap s1 = Some h1 \<and>
           generateHeatMap (st\<lparr>threshold := t2\<rparr>) = Inr s2 \<and> heatMap s2 = Some h2 \<and>
           length (pixels h1) = length (pixels hm) \<and> length (pixels h2) = length (pixels hm) \<and>
           (\<forall>k < length (pixels hm). pixels h2 ! k \<le> pixels h1 ! k) \<and>
           (\<forall>x y. countSunny (images st) t2 x y 0 \<le> countSunny (images st) t1 x y 0)"
proof -
  have "heatColumns (st\<lparr>threshold := t2\<rparr>) 0 (pixels hm) ! k
        \<le> heatColumns (st\<lparr>threshold := t1\<rparr>) 0 (pixels hm) ! k" if "k < length (pixels hm)" for k
    using cellValue_mono [OF assms(1), of st k] that by (simp add: heatColumns_cells)
  moreover have "countSunny (images st) t2 x y 0 \<le> countSunny (images st) t1 x y 0" for x y
    by (rule countSunny_mono [OF assms(1) le_refl])
  ultimately show ?thesis using assms(2) by (simp add: generateHeatMap_def)
qed

theorem threshold_monotone_witness:
  "(200::rat) \<le> 255 \<and>
   heatMap partialLoad = Some \<lparr>iwidth = 1, iheight = 1, pixels = [0, 0, 0, 0]\<rparr> \<and>
   countSunny (images partialLoad) 255 0 0 0 \<le> countSunny (images partialLoad) 200 0 0 0"
proof -
  have a: "(200::rat) \<le> 255" by simp
  have b: "heatMap partialLoad = Some \<lparr>iwidth = 1, iheight = 1, pixels = [0, 0, 0, 0]\<rparr>"
    by (simp add: partialLoad_def)
  from threshold_monotone [OF a b]
  have "\<forall>x y. countSunny (images partialLoad) 255 x y 0 \<le> countSunny (images partialLoad) 200 x y 0"
    by blast
  then have "countSunny (images partialLoad) 255 0 0 0 \<le> countSunny (images partialLoad) 200 0 0 0"
    by blast
  with a b show ?thesis by simp
qed

section \<open>Chunked and single-pass aggregation\<close>

lemma resumeAll_heatColumnsAsync:
  "resumeAll st (heatColumnsAsync st x hp) = heatColumns st x hp"
proof (induction st x hp rule: heatColumns.induct)
  case (1 st x hp)
  show ?case
  proof (cases "x < width st")
    case True
    then show ?thesis
      using "1.IH"
      by (simp add: heatColumnsAsync.simps [of st x hp] heatColumns.simps [of st x hp] Let_def)
  next
    case False
    then show ?thesis
      by (simp add: heatColumnsAsync.simps [of st x hp] heatColumns.simps [of st x hp])
  qed
qed

text \<open>
  Claim C8. The aggregation that suspends after every twentieth column and is resumed
  until it finishes returns what the single-pass aggregation returns: the same error when
  \<open>heatMap\<close> is undefined, the same state with the same heat map otherwise.
\<close>

theorem generateHeatMapAsync_eq: "generateHeatMapAsync st = generateHeatMap st"
  by (simp add: generateHeatMapAsync_def generateHeatMap_def resumeAll_heatColumnsAsync
      split: option.splits)

section \<open>What the aggregation does with the images it is given\<close>

text \<open>
  Claim C1. In the scene \<open>partialLoad\<close> one image has been aggregated and its pixel
  is sunny, so that the count is 1 of 1; the heat map gets the value 3 there
  (\<open>1 / 90 * 255\<close>, rounded), not 255.
\<close>

theorem generateHeatMap_partialLoad:
  "length (images partialLoad) = 1 \<and>
   countSunny (images partialLoad) (threshold partialLoad) 0 0 0 = 1 \<and>
   generateHeatMap partialLoad =
     Inr (partialLoad\<lparr>heatMap := Some \<lparr>iwidth = 1, iheight = 1, pixels = [3, 3, 3, 255]\<rparr>\<rparr>)"
  by code_simp

text \<open>
  Claim C4, as the code has it. \<open>generateHeatMap\<close> compares no dimensions: whatever the
  images are, once a heat map is allocated it returns one of the same length, whose
  first \<open>width * height\<close> pixels hold \<open>cellValue\<close>, the count of the images that are sunny
  when each is read with its own row stride, a read past the end of an image counting
  as not sunny.
\<close>

theorem generateHeatMap_no_dimension_check:
  assumes "heatMap st = Some hm"
  shows "\<exists>hp. generateHeatMap st = Inr (st\<lparr>heatMap := Some (hm\<lparr>pixels := hp\<rparr>)\<rparr>) \<and>
              length hp = length (pixels hm) \<and>
              (\<forall>k < length hp. hp ! k =
                 (if k div 4 < width st * height st then cellValue st k else pixels hm ! k))"
proof (intro exI conjI allI impI)
  show "generateHeatMap st =
        Inr (st\<lparr>heatMap := Some (hm\<lparr>pixels := heatColumns st 0 (pixels hm)\<rparr>)\<rparr>)"
    using assms by (simp add: generateHeatMap_def)
  show "length (heatColumns st 0 (pixels hm)) = length (pixels hm)" by simp
  fix k
  assume "k < length (heatColumns st 0 (pixels hm))"
  then have "k < length (pixels hm)" by simp
  then show "heatColumns st 0 (pixels hm) ! k =
               (if k div 4 < width st * height st then cellValue st k else pixels hm ! k)"
    by (rule heatColumns_cells)
qed

theorem generateHeatMap_no_dimension_check_witness:
  "heatMap mismatched = Some \<lparr>iwidth = 2, iheight = 2, pixels = replicate 16 0\<rparr> \<and>
   (\<exists>hp. generateHeatMap mismatched =
            Inr (mismatched\<lparr>heatMap := Some \<lparr>iwidth = 2, iheight = 2, pixels = hp\<rparr>\<rparr>) \<and>
          length hp = 16 \<and> hp ! 4 = cellValue mismatched 4)"
proof -
  have h: "heatMap mismatched = Some \<lparr>iwidth = 2, iheight = 2, pixels = replicate 16 0\<rparr>"
    by (simp add: mismatched_def)
  from generateHeatMap_no_dimension_check [OF h] obtain hp where hp:
    "generateHeatMap mismatched =
       Inr (mismatched\<lparr>heatMap := Some (\<lparr>iwidth = 2, iheight = 2, pixels = replicate 16 0\<rparr>\<lparr>pixels := hp\<rparr>)\<rparr>)"
    "length hp = length (pixels \<lparr>iwidth = 2, iheight = 2, pixels = replicate 16 0\<rparr>)"
    "\<forall>k < length hp. hp ! k =
       (if k div 4 < width mismatched * height mismatched then cellValue mismatched k
        else pixels \<lparr>iwidth = 2, iheight = 2, pixels = replicate 16 0\<rparr> ! k)"
    by blast
  from hp(2) have len: "length hp = 16" by simp
  with hp(3) have "hp ! 4 = (if (4::nat) div 4 < width mismatched * height mismatched
                            then cellValue mismatched 4
                            else pixels \<lparr>iwidth = 2, iheight = 2, pixels = replicate 16 0\<rparr> ! 4)"
    by simp
  then have "hp ! 4 = cellValue mismatched 4" by (simp add: mismatched_def)
  with h hp(1) len show ?thesis by auto
qed

text \<open>
  Claim C4, as stated, fails: no error is raised for images of different sizes.
  In the scene \<open>mismatched\<close> the widths of the two images differ, and the aggregation
  returns a heat map: the second image is sunny at \<open>(0, 0)\<close> only, its black pixel
  being read for \<open>(1, 0)\<close> and for \<open>(0, 1)\<close>, and nothing for \<open>(1, 1)\<close>.
\<close>

theorem generateHeatMap_mismatched:
  "iwidth (images mismatched ! 0) \<noteq> iwidth (images mismatched ! 1) \<and>
   generateHeatMap mismatched =
     Inr (mismatched\<lparr>heatMap :=
            Some \<lparr>iwidth = 2, iheight = 2,
                  pixels = [6, 6, 6, 255, 3, 3, 3, 255, 3, 3, 3, 255, 3, 3, 3, 255]\<rparr>\<rparr>)"
  by code_simp

section \<open>The score of a rectangle\<close>

lemma int_sum_head:
  fixes f :: "int \<Rightarrow> int"
  assumes "a < b"
  shows "(\<Sum>k = a..<b. f k) = f a + (\<Sum>k = a + 1..<b. f k)"
proof -
  have "{a..<b} = insert a {a + 1..<b}" using assms by auto
  then show ?thesis by simp
qed

lemma index_in_range:
  assumes "0 \<le> i" "i < int W" "0 \<le> j" "j < int H"
  shows "nat ((i + j * int W) * 4) < 4 * W * H"
proof -
  have "(j + 1) * int W \<le> int H * int W"
    using assms by (intro mult_right_mono) auto
  then have "i + j * int W < int H * int W" using assms by (simp add: algebra_simps)
  moreover have "0 \<le> i + j * int W" using assms by simp
  ultimately have "nat (i + j * int W) < H * W"
    by (metis nat_less_iff of_nat_mult)
  then show ?thesis using assms by (simp add: nat_mult_distrib mult.commute)
qed

lemma scoreRows_sum:
  "length hp = 4 * W * H \<Longrightarrow> score = Some a \<Longrightarrow>
   scoreRows W H hp i j jend score = Some (a + (\<Sum>k = j..<jend. gridCell W H hp i k))"
proof (induction W H hp i j jend score arbitrary: a rule: scoreRows.induct)
  case (1 W H hp i j jend score)
  let ?next = "if 0 \<le> i \<and> i < int W \<and> 0 \<le> j \<and> j < int H
               then (let index = nat ((i + j * int W) * 4);
                         brightness = pixelAt hp index
                     in js_add score brightness)
               else score"
  show ?case
  proof (cases "j < jend")
    case True
    have unfold: "scoreRows W H hp i j jend score = scoreRows W H hp i (j + 1) jend ?next"
      by (subst scoreRows.simps) (simp only: True if_True)
    have "?next = Some (a + gridCell W H hp i j)"
    proof (cases "0 \<le> i \<and> i < int W \<and> 0 \<le> j \<and> j < int H")
      case inside: True
      then have "nat ((i + j * int W) * 4) < length hp"
        using index_in_range [of i W j H] "1.prems"(1) by simp
      then have "pixelAt hp (nat ((i + j * int W) * 4)) = Some (gridCell W H hp i j)"
        unfolding pixelAt_def gridCell_def if_P [OF inside] by simp
      then show ?thesis
        unfolding if_P [OF inside] Let_def "1.prems"(2) by (simp add: js_add_def)
    next
      case outside: False
      have "gridCell W H hp i j = 0" unfolding gridCell_def by (rule if_not_P [OF outside])
      then show ?thesis unfolding if_not_P [OF outside] "1.prems"(2) by simp
    qed
    from "1.IH" [OF True "1.prems"(1) this]
    have "scoreRows W H hp i (j + 1) jend ?next =
          Some (a + gridCell W H hp i j + (\<Sum>k = j + 1..<jend. gridCell W H hp i k))" .
    then show ?thesis
      unfolding unfold using int_sum_head [OF True, of "gridCell W H hp i"] by simp
  next
    case False
    then show ?thesis using "1.prems"(2) by (simp add: scoreRows.simps [of W H hp i j jend])
  qed
qed

lemma scoreColumns_sum:
  "length hp = 4 * W * H \<Longrightarrow> score = Some a \<Longrightarrow>
   scoreColumns W H hp i iend j0 jend score =
     Some (a + (\<Sum>c = i..<iend. \<Sum>k = j0..<jend. gridCell W H hp c k))"
proof (induction W H hp i iend j0 jend score arbitrary: a rule: scoreColumns.induct)
  case (1 W H hp i iend j0 jend score)
  show ?case
  proof (cases "i < iend")
    case True
    have r: "scoreRows W H hp i j0 jend score = Some (a + (\<Sum>k = j0..<jend. gridCell W H hp i k))"
      by (rule scoreRows_sum [OF "1.prems"])
    have "scoreColumns W H hp i iend j0 jend score =
          scoreColumns W H hp (i + 1) iend j0 jend (scoreRows W H hp i j0 jend score)"
      using True by (simp add: scoreColumns.simps [of W H hp i iend j0 jend])
    also have "\<dots> = Some (a + (\<Sum>k = j0..<jend. gridCell W H hp i k)
                       + (\<Sum>c = i + 1..<iend. \<Sum>k = j0..<jend. gridCell W H hp c k))"
      by (rule "1.IH" [OF True "1.prems"(1) r])
    finally show ?thesis
      using int_sum_head [OF True, of "\<lambda>c. \<Sum>k = j0..<jend. gridCell W H hp c k"] by simp
  next
    case False
    then show ?thesis
      using "1.prems"(2) by (simp add: scoreColumns.simps [of W H hp i iend j0 jend])
  qed
qed

lemma calculateRectangleScore_eq_sum:
  assumes "heatMap st = Some hm" and "length (pixels hm) = 4 * width st * height st"
  shows "calculateRectangleScore st x y w h =
           Some (\<Sum>i = \<lfloor>x - w / 2\<rfloor>..<\<lfloor>x + w / 2\<rfloor>. \<Sum>j = \<lfloor>y - h / 2\<rfloor>..<\<lfloor>y + h / 2\<rfloor>.
                   gridCell (width st) (height st) (pixels hm) i j)"
  using assms scoreColumns_sum [OF assms(2) refl, where a = 0]
  by (simp add: calculateRectangleScore_def)




lemma length_shadedPixels: "length (shadedPixels n) = 4 * n"
  by (induction n) (simp_all add: shadedPixels_def)

lemma nth_shadedPixels: "k < n \<Longrightarrow> shadedPixels n ! (k * 4) = 0"
proof (induction n arbitrary: k)
  case 0
  then show ?case by simp
next
  case (Suc n)
  show ?case
  proof (cases k)
    case 0
    then show ?thesis by (simp add: shadedPixels_def)
  next
    case (Suc j)
    with Suc.prems have "j < n" by simp
    from Suc.IH [OF this] show ?thesis
      using Suc by (simp add: shadedPixels_def)
  qed
qed

lemma gridCell_shaded: "gridCell W H (shadedPixels (W * H)) i j = 0"
proof (cases "0 \<le> i \<and> i < int W \<and> 0 \<le> j \<and> j < int H")
  case True
  then have "nat ((i + j * int W) * 4) < 4 * W * H"
    using index_in_range [of i W j H] by simp
  moreover have "nat ((i + j * int W) * 4) = nat (i + j * int W) * 4"
    using True by (simp add: nat_mult_distrib)
  ultimately have "shadedPixels (W * H) ! nat ((i + j * int W) * 4) = 0"
    using nth_shadedPixels [of "nat (i + j * int W)" "W * H"] by simp
  then show ?thesis unfolding gridCell_def if_P [OF True] .
next
  case False
  show ?thesis unfolding gridCell_def by (rule if_not_P [OF False])
qed

text \<open>
  Claim C9. With \<open>heatMap\<close> undefined the score of every rectangle is 0, not an error
  and not \<open>NaN\<close>; it is the score the same rectangle has on a heat map of the size of
  the canvas that is shaded everywhere.
\<close>

theorem score_without_heatMap:
  assumes "heatMap st = None"
  shows "calculateRectangleScore st x y w h = Some 0 \<and>
         calculateRectangleScore
           (st\<lparr>heatMap := Some \<lparr>iwidth = width st, iheight = height st,
                                pixels = shadedPixels (width st * height st)\<rparr>\<rparr>) x y w h
           = Some 0"
proof
  show "calculateRectangleScore st x y w h = Some 0"
    using assms by (simp add: calculateRectangleScore_def)
  let ?st = "st\<lparr>heatMap := Some \<lparr>iwidth = width st, iheight = height st,
                                pixels = shadedPixels (width st * height st)\<rparr>\<rparr>"
  have "calculateRectangleScore ?st x y w h =
        Some (\<Sum>i = \<lfloor>x - w / 2\<rfloor>..<\<lfloor>x + w / 2\<rfloor>. \<Sum>j = \<lfloor>y - h / 2\<rfloor>..<\<lfloor>y + h / 2\<rfloor>.
                gridCell (width ?st) (height ?st) (shadedPixels (width st * height st)) i j)"
    using calculateRectangleScore_eq_sum
      [of ?st "\<lparr>iwidth = width st, iheight = height st,
                pixels = shadedPixels (width st * height st)\<rparr>" x y w h]
    by (simp add: length_shadedPixels)
  then show "calculateRectangleScore ?st x y w h = Some 0"
    by (simp add: gridCell_shaded)
qed

theorem score_without_heatMap_witness:
  "heatMap noHeatMap = None \<and>
   calculateRectangleScore noHeatMap 0 0 (rectWidth noHeatMap) (rectHeight noHeatMap) = Some 0"
proof -
  have a: "heatMap noHeatMap = None" by (simp add: noHeatMap_def)
  from score_without_heatMap [OF a] a show ?thesis by blast
qed

section \<open>One step of the search\<close>









section \<open>The search ends\<close>












lemma calculateRectangleScore_moving [simp]:
  "calculateRectangleScore (st\<lparr>movingRectangle := v\<rparr>) x y w h = calculateRectangleScore st x y w h"
  by (simp add: calculateRectangleScore_def split: option.splits)

lemma inBounds_moving [simp]:
  "inBounds (st\<lparr>movingRectangle := v\<rparr>) x y w h = inBounds st x y w h"
  by (simp add: inBounds_def)

lemma better_moving [simp]: "better (st\<lparr>movingRectangle := v\<rparr>) m = better st m"
  by (simp add: better_def gridCells_def scoreFrom_def)


lemma localMax_moving [simp]: "localMax (st\<lparr>movingRectangle := v\<rparr>) p = localMax st p"
  by (simp add: localMax_def)


section \<open>The stored score\<close>




lemma fullyInside_moving [simp]:
  "fullyInside (st\<lparr>movingRectangle := v\<rparr>) x y w h = fullyInside st x y w h"
  by (simp add: fullyInside_def)




lemma mousePressed_startSearch:
  "0 \<le> mouseX \<Longrightarrow> mouseX < of_nat (width st) \<Longrightarrow> 0 \<le> mouseY \<Longrightarrow> mouseY < of_nat (height st) \<Longrightarrow>
   mousePressed st mouseX mouseY =
     startSearch st mouseX (mouseY + (- rectHeight st / 2 - 8)) (rectWidth st) (rectHeight st)"
  by (simp add: mousePressed_def startSearch_def Let_def)




text \<open>
  Claim C6, as stated, fails: on the 5 by 5 grid with 255 in cell \<open>(2, 2)\<close> only, the
  search for a 1 by 1 rectangle started at \<open>(0, 0)\<close> ends at \<open>(0, 0)\<close> with score 0.
\<close>

theorem hillClimb_spot_from_origin:
  "frames (width spotGrid * height spotGrid) (startSearch spotGrid 0 0 1 1) =
     spotGrid\<lparr>permanentRectangles :=
                [\<lparr>rx = 0, ry = 0, rw = 1, rh = 1, rscore = Some 0, searching = False\<rparr>],
              movingRectangle := None\<rparr>"
  by code_simp

text \<open>
  Claim C6, as the code has it. On that grid the 1 by 1 rectangle at \<open>(0, 0)\<close> has
  score 0, and so has the one over cell \<open>(0, 0)\<close>, centred at \<open>(1/2, 1/2)\<close>; a search
  started at either is frozen by the first frame, where it started and with score 0, since
  no neighbour scores more. A search started at \<open>(2, 2)\<close>, one diagonal step from the
  centre \<open>(3, 3)\<close> of the rectangle over cell \<open>(2, 2)\<close>, moves there in the first frame
  and is frozen there by the second, with score 255.
\<close>

theorem hillClimb_spot:
  "gridCell 5 5 spotPixels 2 2 = 255 \<and>
   calculateRectangleScore spotGrid (5 / 2) (5 / 2) 5 5 = Some 255 \<and>
   calculateRectangleScore spotGrid 0 0 1 1 = Some 0 \<and>
   draw (startSearch spotGrid 0 0 1 1) =
     spotGrid\<lparr>permanentRectangles :=
                [\<lparr>rx = 0, ry = 0, rw = 1, rh = 1, rscore = Some 0, searching = False\<rparr>],
              movingRectangle := None\<rparr> \<and>
   draw (startSearch spotGrid (1 / 2) (1 / 2) 1 1) =
     spotGrid\<lparr>permanentRectangles :=
                [\<lparr>rx = 1 / 2, ry = 1 / 2, rw = 1, rh = 1, rscore = Some 0, searching = False\<rparr>],
              movingRectangle := None\<rparr> \<and>
   draw (startSearch spotGrid 2 2 1 1) =
     spotGrid\<lparr>movingRectangle :=
                Some \<lparr>rx = 3, ry = 3, rw = 1, rh = 1, rscore = Some 255, searching = True\<rparr>\<rparr> \<and>
   frames 2 (startSearch spotGrid 2 2 1 1) =
     spotGrid\<lparr>permanentRectangles :=
                [\<lparr>rx = 3, ry = 3, rw = 1, rh = 1, rscore = Some 255, searching = False\<rparr>],
              movingRectangle := None\<rparr>"
  by code_simp

end
